theory Spec2Isabelle
  imports Main
begin

section \<open>Python values, exceptions and entities\<close>

text \<open>
  The module \<^verbatim>\<open>oemof/core/energy_system.py\<close> defines three classes:
  \<^verbatim>\<open>EnergySystem\<close>, \<^verbatim>\<open>Region\<close> and \<^verbatim>\<open>Simulation\<close>.  Methods that mutate
  \<^verbatim>\<open>self\<close> take the object and return it updated; a method that can raise returns
  the object as the exception leaves it together with \<open>Inl\<close> of the exception, or
  \<open>Inr\<close> of the value it returns.
\<close>

datatype error = ValueError string | AttributeError string | UserError string

text \<open>
  Attribute values the module only stores and hands on (regions, simulation, results,
  time index, dictionary entries of the solver options).
\<close>

datatype pyval = PyNone | PyList "nat list" | PyObj nat

text \<open>
  An entity is an object with an identity and a \<^verbatim>\<open>uid\<close> attribute.  Two values of
  the record are equal exactly when they are the same object (\<^verbatim>\<open>is\<close>), the
  object identity being the field \<open>ident\<close>.
\<close>

record entity =
  ident :: nat
  uid :: string

datatype group = Single entity | Members "entity set"

type_synonym group_map = "string \<rightharpoonup> group"

text \<open>
  A grouping is called as \<^verbatim>\<open>g(entity, groups)\<close>: it mutates the dictionary in
  place and returns nothing, or raises.  The model returns the dictionary as the call
  leaves it, and the exception if one was raised.
\<close>

type_synonym grouping = "entity \<Rightarrow> group_map \<Rightarrow> group_map \<times> error option"

text \<open>
  Modelled from the spec: the default grouping \<^verbatim>\<open>oemof.groupings.DEFAULT\<close>
  (imported as \<^verbatim>\<open>BY_UID\<close>) is not among the source files.  The spec gives it as
  the grouping that stores the entity itself under its own uid by direct assignment
  (last writer for that uid wins) and it does not raise.
\<close>

definition BY_UID :: grouping where
  "BY_UID e d = (d(uid e \<mapsto> Single e), None)"

section \<open>EnergySystem\<close>

text \<open>
  The attribute \<^verbatim>\<open>_groups\<close> holds either a dictionary or the callable
  \<^verbatim>\<open>partial(self._regroup, entity, groups, groupings)\<close>, which keeps the entity, a
  reference to the dictionary and a reference to the list of groupings.
\<close>

datatype gstate = Materialized group_map | Pending entity group_map "grouping list"

record EnergySystem =
  regions :: pyval
  es_entities :: "entity list"
  simulation :: pyval
  u_groups :: gstate
  u_groupings :: "grouping list"
  results :: pyval
  time_idx :: pyval

text \<open>
  An element of the \<^verbatim>\<open>groupings\<close> argument either is an instance of
  \<^verbatim>\<open>GroupingBase\<close> or is anything else, which the constructor hands to
  \<^verbatim>\<open>Grouping\<close> (\<^verbatim>\<open>oemof.groupings.Nodes\<close>).  That class is not among the
  source files, so the constructor of the model takes it as its first argument.
\<close>

datatype 'kf grouping_arg = Instance grouping | Raw 'kf

record 'kf es_kwargs =
  kw_regions :: "pyval option"
  kw_entities :: "entity list option"
  kw_simulation :: "pyval option"
  kw_groupings :: "'kf grouping_arg list option"
  kw_results :: "pyval option"
  kw_time_idx :: "pyval option"

text \<open>\<^verbatim>\<open>kwargs.get(key, default)\<close>.\<close>

definition kwargs_get :: "'a option \<Rightarrow> 'a \<Rightarrow> 'a" where
  "kwargs_get v dflt = (case v of None \<Rightarrow> dflt | Some x \<Rightarrow> x)"

text \<open>
  \<^verbatim>\<open>for g in groupings: g(entity, groups)\<close>, the body of \<^verbatim>\<open>_regroup\<close> and of
  the constructor's inner loop.  An exception leaves the loop at once.
\<close>

fun apply_groupings :: "grouping list \<Rightarrow> entity \<Rightarrow> group_map \<Rightarrow> group_map \<times> error option" where
  "apply_groupings [] e d = (d, None)"
| "apply_groupings (g # gs) e d =
     (case g e d of
        (d', None) \<Rightarrow> apply_groupings gs e d'
      | (d', Some x) \<Rightarrow> (d', Some x))"

definition regroup :: "entity \<Rightarrow> group_map \<Rightarrow> grouping list \<Rightarrow> group_map \<times> error option" where
  "regroup entity groups groupings = apply_groupings groupings entity groups"

text \<open>
  The property \<^verbatim>\<open>groups\<close>:
  \<^verbatim>\<open>while callable(self._groups): self._groups = self._groups()\<close>.
  When the call raises, the assignment does not happen: \<^verbatim>\<open>_groups\<close> stays the
  same callable, whose dictionary holds what the groupings wrote before the exception.
\<close>

function groups :: "EnergySystem \<Rightarrow> EnergySystem \<times> (error + group_map)" where
  "groups s =
     (case u_groups s of
        Materialized d \<Rightarrow> (s, Inr d)
      | Pending e d gs \<Rightarrow>
          (case regroup e d gs of
             (d', None) \<Rightarrow> groups (s\<lparr>u_groups := Materialized d'\<rparr>)
           | (d', Some x) \<Rightarrow> (s\<lparr>u_groups := Pending e d' gs\<rparr>, Inl x)))"
  by pat_completeness auto
termination
  by (relation "measure (\<lambda>s. case u_groups s of Materialized _ \<Rightarrow> 0 | Pending _ _ _ \<Rightarrow> Suc 0)")
     auto

declare groups.simps [simp del]

text \<open>
  \<^verbatim>\<open>add\<close>: the entity is appended first; the arguments of \<^verbatim>\<open>partial\<close> are
  evaluated next, among them the property \<^verbatim>\<open>self.groups\<close>; the assignment to
  \<^verbatim>\<open>_groups\<close> comes last and does not happen when the read raised.
\<close>

definition add :: "entity \<Rightarrow> EnergySystem \<Rightarrow> EnergySystem \<times> (error + unit)" where
  "add entity s =
     (case groups (s\<lparr>es_entities := es_entities s @ [entity]\<rparr>) of
        (s', Inl x) \<Rightarrow> (s', Inl x)
      | (s', Inr d) \<Rightarrow> (s'\<lparr>u_groups := Pending entity d (u_groupings s')\<rparr>, Inr ()))"

definition nodes :: "EnergySystem \<Rightarrow> entity list" where
  "nodes s = es_entities s"

definition nodes_set :: "entity list \<Rightarrow> EnergySystem \<Rightarrow> EnergySystem" where
  "nodes_set v s = s\<lparr>es_entities := v\<rparr>"

text \<open>
  The constructor's loop
  \<^verbatim>\<open>for e in self.entities: for g in self._groupings: g(e, self.groups)\<close>.
  There \<^verbatim>\<open>_groups\<close> is the dictionary created two lines above, so the read of the
  property returns it as it is.
\<close>

fun init_loop :: "grouping list \<Rightarrow> entity list \<Rightarrow> group_map \<Rightarrow> group_map \<times> error option" where
  "init_loop gs [] d = (d, None)"
| "init_loop gs (e # es) d =
     (case apply_groupings gs e d of
        (d', None) \<Rightarrow> init_loop gs es d'
      | (d', Some x) \<Rightarrow> (d', Some x))"

text \<open>
  \<^verbatim>\<open>[BY_UID] + [g if isinstance(g, GroupingBase) else Grouping(g) for g in ...]\<close>
\<close>

definition configure :: "('kf \<Rightarrow> grouping) \<Rightarrow> 'kf grouping_arg list \<Rightarrow> grouping list" where
  "configure Grouping gs =
     [BY_UID] @ map (\<lambda>g. case g of Instance i \<Rightarrow> i | Raw k \<Rightarrow> Grouping k) gs"

text \<open>
  \<^verbatim>\<open>EnergySystem.__init__\<close>.  The three attributes of the first loop default to a
  fresh empty list each.  An exception of a grouping leaves the constructor, and no
  object is returned.  The two assignments to \<^verbatim>\<open>registry\<close> write class attributes of
  \<^verbatim>\<open>Entity\<close> and \<^verbatim>\<open>Node\<close>, which no method of this module reads; they are
  left out.
\<close>

definition EnergySystem_init :: "('kf \<Rightarrow> grouping) \<Rightarrow> 'kf es_kwargs \<Rightarrow> error + EnergySystem" where
  "EnergySystem_init Grouping kwargs =
     (let entities = kwargs_get (kw_entities kwargs) [];
          groupings = configure Grouping (kwargs_get (kw_groupings kwargs) [])
      in case init_loop groupings entities Map.empty of
           (d, Some x) \<Rightarrow> Inl x
         | (d, None) \<Rightarrow>
             Inr \<lparr>regions = kwargs_get (kw_regions kwargs) (PyList []),
                  es_entities = entities,
                  simulation = kwargs_get (kw_simulation kwargs) (PyList []),
                  u_groups = Materialized d,
                  u_groupings = groupings,
                  results = kwargs_get (kw_results kwargs) PyNone,
                  time_idx = kwargs_get (kw_time_idx kwargs) PyNone\<rparr>)"

text \<open>
  Programs over one energy system: a sequence of calls, left by the first exception as
  a Python script without \<^verbatim>\<open>try\<close> is.
\<close>

datatype op = Add entity | Read | SetNodes "entity list"

fun exec :: "op \<Rightarrow> EnergySystem \<Rightarrow> EnergySystem \<times> (error + unit)" where
  "exec (Add e) s = add e s"
| "exec Read s = (case groups s of (s', Inl x) \<Rightarrow> (s', Inl x) | (s', Inr d) \<Rightarrow> (s', Inr ()))"
| "exec (SetNodes v) s = (nodes_set v s, Inr ())"

fun run :: "op list \<Rightarrow> EnergySystem \<Rightarrow> EnergySystem \<times> (error + unit)" where
  "run [] s = (s, Inr ())"
| "run (c # cs) s =
     (case exec c s of
        (s', Inl x) \<Rightarrow> (s', Inl x)
      | (s', Inr u) \<Rightarrow> run cs s')"

text \<open>What a read of \<^verbatim>\<open>groups\<close> at the end of the program gives.\<close>

definition then_read :: "EnergySystem \<times> (error + unit) \<Rightarrow> error + group_map" where
  "then_read r = (case r of (s, Inl x) \<Rightarrow> Inl x | (s, Inr u) \<Rightarrow> snd (groups s))"

text \<open>
  The specification of a forced chain: the entities are folded into the dictionary one
  after the other, in the order in which they were added, each by \<^verbatim>\<open>_regroup\<close>.
\<close>

fun fold_groups :: "grouping list \<Rightarrow> group_map \<Rightarrow> entity list \<Rightarrow> error + group_map" where
  "fold_groups gs d [] = Inr d"
| "fold_groups gs d (e # es) =
     (case regroup e d gs of
        (d', None) \<Rightarrow> fold_groups gs d' es
      | (d', Some x) \<Rightarrow> Inl x)"

text \<open>
  What a read gives once the entities \<open>es\<close> have been added after the state \<open>s\<close>: the
  pending fold of \<open>s\<close> is run first, the folds of \<open>es\<close> follow.
\<close>

definition forced :: "EnergySystem \<Rightarrow> entity list \<Rightarrow> error + group_map" where
  "forced s es =
     (case groups s of
        (s', Inl x) \<Rightarrow> Inl x
      | (s', Inr d) \<Rightarrow> fold_groups (u_groupings s) d es)"

fun adds_of :: "op list \<Rightarrow> entity list" where
  "adds_of [] = []"
| "adds_of (Add e # cs) = e # adds_of cs"
| "adds_of (c # cs) = adds_of cs"

definition read_after_each :: "entity list \<Rightarrow> op list" where
  "read_after_each es = concat (map (\<lambda>e. [Add e, Read]) es)"

text \<open>
  What the attribute \<^verbatim>\<open>_groups\<close> holds: the dictionary object itself, and the
  entities whose folds the stored callable runs when it is called.
\<close>

fun stored_dict :: "gstate \<Rightarrow> group_map" where
  "stored_dict (Materialized d) = d"
| "stored_dict (Pending e d gs) = d"

fun pending_entities :: "gstate \<Rightarrow> entity list" where
  "pending_entities (Materialized d) = []"
| "pending_entities (Pending e d gs) = [e]"

text \<open>The most recently added entity of a list that has the uid \<open>u\<close>.\<close>

definition latest :: "entity list \<Rightarrow> string \<Rightarrow> entity option" where
  "latest es u = find (\<lambda>e. uid e = u) (rev es)"



section \<open>Region\<close>

text \<open>
  Modelled from the spec: the class \<^verbatim>\<open>Entity\<close> (\<^verbatim>\<open>oemof.core.network\<close>) is not
  among the source files; the spec gives an entity a uid and a list of owning regions.
  The lists \<^verbatim>\<open>entity.regions\<close> are mutable objects shared by everyone who holds the
  entity, so they live in a store indexed by the identity of the entity.  A region is
  in such a list by its own identity (\<^verbatim>\<open>Region\<close> defines no \<^verbatim>\<open>__eq__\<close>).
\<close>

type_synonym store = "nat \<Rightarrow> nat list"

record Region =
  rg_ident :: nat
  rg_entities :: "entity list"
  name :: "string option"
  geom :: pyval
  u_code :: "string option"

record region_kwargs =
  kw_rg_entities :: "entity list option"
  kw_name :: "string option"
  kw_geom :: "pyval option"
  kw_code :: "string option"

text \<open>
  \<^verbatim>\<open>for entity in entities: if self not in entity.regions: entity.regions.append(self)\<close>
\<close>

fun back_reference :: "nat \<Rightarrow> entity list \<Rightarrow> store \<Rightarrow> store" where
  "back_reference r [] st = st"
| "back_reference r (e # es) st =
     back_reference r es
       (if r \<notin> set (st (ident e)) then st(ident e := st (ident e) @ [r]) else st)"

definition add_entities :: "entity list \<Rightarrow> Region \<times> store \<Rightarrow> Region \<times> store" where
  "add_entities entities rs =
     (case rs of (self, st) \<Rightarrow>
        (self\<lparr>rg_entities := rg_entities self @ entities\<rparr>,
         back_reference (rg_ident self) entities st))"

text \<open>
  \<^verbatim>\<open>Region.__init__\<close>; \<open>i\<close> is the identity of the new object.  A keyword that is
  missing reads as \<^verbatim>\<open>None\<close>, as \<^verbatim>\<open>kwargs.get\<close> without a default gives it.
\<close>

definition Region_init :: "nat \<Rightarrow> region_kwargs \<Rightarrow> store \<Rightarrow> Region \<times> store" where
  "Region_init i kwargs st =
     (case add_entities (kwargs_get (kw_rg_entities kwargs) [])
             (\<lparr>rg_ident = i, rg_entities = [], name = None, geom = PyNone, u_code = None\<rparr>, st) of
        (self, st') \<Rightarrow>
          (self\<lparr>name := kw_name kwargs,
                geom := kwargs_get (kw_geom kwargs) PyNone,
                u_code := kw_code kwargs\<rparr>, st'))"

text \<open>\<^verbatim>\<open>name.replace('_', ' ')\<close> and \<^verbatim>\<open>.split(' ', 1)\<close>.\<close>

definition replace_underscores :: "string \<Rightarrow> string" where
  "replace_underscores s = map (\<lambda>c. if c = CHR ''_'' then CHR '' '' else c) s"

definition split_once :: "string \<Rightarrow> string list" where
  "split_once s =
     (if CHR '' '' \<in> set s
      then [takeWhile (\<lambda>c. c \<noteq> CHR '' '') s, tl (dropWhile (\<lambda>c. c \<noteq> CHR '' '') s)]
      else [s])"

text \<open>
  \<^verbatim>\<open>for part in name_parts: self._code += part[:1].upper() + part[1:3]\<close>, with
  \<^verbatim>\<open>str.upper\<close> of the Python library as the parameter \<open>upper\<close>.
\<close>

fun code_loop :: "(string \<Rightarrow> string) \<Rightarrow> string list \<Rightarrow> string \<Rightarrow> string" where
  "code_loop upper [] acc = acc"
| "code_loop upper (part # parts) acc =
     code_loop upper parts (acc @ upper (take 1 part) @ take 2 (drop 1 part))"

text \<open>
  The property \<^verbatim>\<open>Region.code\<close>.  A name that is \<^verbatim>\<open>None\<close> has no method
  \<^verbatim>\<open>replace\<close>: the read raises before \<^verbatim>\<open>_code\<close> is assigned.
\<close>

definition code :: "(string \<Rightarrow> string) \<Rightarrow> Region \<Rightarrow> Region \<times> (error + string)" where
  "code upper self =
     (case u_code self of
        Some c \<Rightarrow> (self, Inr c)
      | None \<Rightarrow>
          (case name self of
             None \<Rightarrow> (self, Inl (AttributeError ''replace''))
           | Some n \<Rightarrow>
               (let name_parts = split_once (replace_underscores n);
                    c = code_loop upper name_parts []
                in (self\<lparr>u_code := Some c\<rparr>, Inr c))))"

text \<open>
  The short code in the words of its description: for each part of the name, the first
  character in upper case and the two characters after it.
\<close>

definition short_code :: "(string \<Rightarrow> string) \<Rightarrow> string list \<Rightarrow> string" where
  "short_code upper parts = concat (map (\<lambda>p. upper (take 1 p) @ take 2 (drop 1 p)) parts)"

text \<open>\<^verbatim>\<open>str.upper\<close> on ASCII text.\<close>

definition ascii_upper :: "string \<Rightarrow> string" where
  "ascii_upper s =
     map (\<lambda>c. case map_of (zip ''abcdefghijklmnopqrstuvwxyz'' ''ABCDEFGHIJKLMNOPQRSTUVWXYZ'') c of
               Some u \<Rightarrow> u
             | None \<Rightarrow> c) s"

section \<open>Simulation\<close>

record Simulation =
  solver :: string
  debug :: bool
  verbose :: bool
  objective_options :: "string \<rightharpoonup> pyval"
  duals :: bool
  timesteps :: "nat list option"
  relaxed :: bool
  fast_build :: bool
  solve_kwargs :: "string \<rightharpoonup> pyval"

text \<open>
  The keyword arguments: \<open>None\<close> is a keyword that was not passed.  The value of
  \<^verbatim>\<open>timesteps\<close> can itself be \<^verbatim>\<open>None\<close>, the inner \<open>option\<close>.
\<close>

record simulation_kwargs =
  kw_solver :: "string option"
  kw_debug :: "bool option"
  kw_verbose :: "bool option"
  kw_objective_options :: "(string \<rightharpoonup> pyval) option"
  kw_duals :: "bool option"
  kw_timesteps :: "nat list option option"
  kw_relaxed :: "bool option"
  kw_fast_build :: "bool option"
  kw_solve_kwargs :: "(string \<rightharpoonup> pyval) option"

definition Simulation_init :: "simulation_kwargs \<Rightarrow> error + Simulation" where
  "Simulation_init kwargs =
     (let self = \<lparr>solver = kwargs_get (kw_solver kwargs) ''glpk'',
                  debug = kwargs_get (kw_debug kwargs) False,
                  verbose = kwargs_get (kw_verbose kwargs) False,
                  objective_options = kwargs_get (kw_objective_options kwargs) Map.empty,
                  duals = kwargs_get (kw_duals kwargs) False,
                  timesteps = kwargs_get (kw_timesteps kwargs) None,
                  relaxed = kwargs_get (kw_relaxed kwargs) False,
                  fast_build = kwargs_get (kw_fast_build kwargs) False,
                  solve_kwargs = kwargs_get (kw_solve_kwargs kwargs) Map.empty\<rparr>
      in if timesteps self = None then Inl (ValueError ''No timesteps defined!'')
         else Inr self)"

section \<open>Invariant and example inputs\<close>


text \<open>
  Concrete inputs on which the theorems below are run: three buses, two of them with
  the same uid; a grouping that raises on one entity; a wrapper that makes a grouping
  of a key function; the constructor's arguments when none is passed, and the energy
  system it then builds.
\<close>

definition bus_el :: entity where
  "bus_el = \<lparr>ident = 1, uid = ''electricity''\<rparr>"

definition bus_gas :: entity where
  "bus_gas = \<lparr>ident = 2, uid = ''gas''\<rparr>"

definition bus_el2 :: entity where
  "bus_el2 = \<lparr>ident = 3, uid = ''electricity''\<rparr>"

definition fails_on :: "entity \<Rightarrow> grouping" where
  "fails_on e0 e d = (if e = e0 then (d, Some (UserError ''boom'')) else (d, None))"

definition example_wrapper :: "(entity \<Rightarrow> string) \<Rightarrow> grouping" where
  "example_wrapper k e d =
     (d(k e \<mapsto> Members (insert e (case d (k e) of Some (Members S) \<Rightarrow> S | _ \<Rightarrow> {}))), None)"

definition no_kwargs :: "(entity \<Rightarrow> string) es_kwargs" where
  "no_kwargs = \<lparr>kw_regions = None, kw_entities = None, kw_simulation = None,
                kw_groupings = None, kw_results = None, kw_time_idx = None\<rparr>"

definition es_empty :: "grouping list \<Rightarrow> EnergySystem" where
  "es_empty gs = \<lparr>regions = PyList [], es_entities = [], simulation = PyList [],
                  u_groups = Materialized Map.empty, u_groupings = gs,
                  results = PyNone, time_idx = PyNone\<rparr>"

definition sim_no_kwargs :: simulation_kwargs where
  "sim_no_kwargs = \<lparr>kw_solver = None, kw_debug = None, kw_verbose = None,
                    kw_objective_options = None, kw_duals = None, kw_timesteps = None,
                    kw_relaxed = None, kw_fast_build = None, kw_solve_kwargs = None\<rparr>"

definition region_north :: Region where
  "region_north = \<lparr>rg_ident = 7, rg_entities = [bus_el2], name = Some ''north'',
                   geom = PyNone, u_code = None\<rparr>"

section \<open>Reading and adding: basic facts\<close>

lemma groups_Materialized: "u_groups s = Materialized d \<Longrightarrow> groups s = (s, Inr d)"
  by (simp add: groups.simps)

lemma groups_Pending_ok:
  "u_groups s = Pending e d gs \<Longrightarrow> regroup e d gs = (d', None) \<Longrightarrow>
   groups s = (s\<lparr>u_groups := Materialized d'\<rparr>, Inr d')"
  by (subst groups.simps) (simp add: groups_Materialized)

lemma groups_Pending_raise:
  "u_groups s = Pending e d gs \<Longrightarrow> regroup e d gs = (d', Some x) \<Longrightarrow>
   groups s = (s\<lparr>u_groups := Pending e d' gs\<rparr>, Inl x)"
  by (subst groups.simps) simp

lemma groups_entities:
  "groups (s\<lparr>es_entities := v\<rparr>) = (fst (groups s)\<lparr>es_entities := v\<rparr>, snd (groups s))"
proof (cases "u_groups s")
  case (Materialized d)
  then show ?thesis by (simp add: groups_Materialized)
next
  case (Pending e d gs)
  obtain d' r where R: "regroup e d gs = (d', r)" by (cases "regroup e d gs")
  show ?thesis
  proof (cases r)
    case None
    with Pending R show ?thesis by (simp add: groups_Pending_ok)
  next
    case (Some x)
    with Pending R show ?thesis by (simp add: groups_Pending_raise)
  qed
qed

lemma groups_groupings: "u_groupings (fst (groups s)) = u_groupings s"
proof (cases "u_groups s")
  case (Materialized d)
  then show ?thesis by (simp add: groups_Materialized)
next
  case (Pending e d gs)
  obtain d' r where R: "regroup e d gs = (d', r)" by (cases "regroup e d gs")
  show ?thesis
  proof (cases r)
    case None
    with Pending R show ?thesis by (simp add: groups_Pending_ok)
  next
    case (Some x)
    with Pending R show ?thesis by (simp add: groups_Pending_raise)
  qed
qed

lemma groups_returns:
  "groups s = (s', Inr d) \<Longrightarrow> u_groups s' = Materialized d"
proof (cases "u_groups s")
  case (Materialized d0)
  assume "groups s = (s', Inr d)"
  with Materialized show ?thesis by (simp add: groups_Materialized)
next
  case (Pending e d0 gs)
  assume G: "groups s = (s', Inr d)"
  obtain d' r where R: "regroup e d0 gs = (d', r)" by (cases "regroup e d0 gs")
  show ?thesis
  proof (cases r)
    case None
    with Pending R G show ?thesis by (auto simp add: groups_Pending_ok)
  next
    case (Some x)
    with Pending R G show ?thesis by (simp add: groups_Pending_raise)
  qed
qed

lemma forced_Nil: "forced s [] = snd (groups s)"
  by (simp add: forced_def split: prod.splits sum.splits)

lemma forced_read:
  "groups s = (s', Inr d) \<Longrightarrow> forced s' es = forced s es"
  by (frule groups_returns)
     (use groups_groupings[of s] in \<open>simp add: forced_def groups_Materialized\<close>)

lemma forced_set_nodes: "forced (nodes_set v s) es = forced s es"
  by (simp add: forced_def nodes_set_def groups_entities split: prod.splits sum.splits)

lemma add_raises:
  "snd (groups s) = Inl x \<Longrightarrow> snd (add e s) = Inl x"
  by (cases "groups s") (simp add: add_def groups_entities)

lemma forced_add:
  "add e s = (s', Inr u) \<Longrightarrow> forced s' es = forced s (e # es)"
proof -
  assume A: "add e s = (s', Inr u)"
  obtain s1 r where G: "groups s = (s1, r)" by (cases "groups s")
  show ?thesis
  proof (cases r)
    case (Inl x)
    with A G show ?thesis by (simp add: add_def groups_entities)
  next
    case (Inr d)
    have gg: "u_groupings s1 = u_groupings s" using groups_groupings[of s] G by simp
    from A G Inr have s': "s' = s1\<lparr>es_entities := es_entities s @ [e], u_groups := Pending e d (u_groupings s)\<rparr>"
      using gg by (auto simp add: add_def groups_entities)
    obtain d' r' where R: "regroup e d (u_groupings s) = (d', r')" by (cases "regroup e d (u_groupings s)")
    show ?thesis
    proof (cases r')
      case None
      with s' R G Inr gg show ?thesis
        by (simp add: forced_def groups_Pending_ok[where e=e and d=d and gs="u_groupings s" and d'=d'])
    next
      case (Some x)
      with s' R G Inr gg show ?thesis
        by (simp add: forced_def groups_Pending_raise[where e=e and d=d and gs="u_groupings s" and d'=d'])
    qed
  qed
qed

lemma then_read_run: "then_read (run cs s) = forced s (adds_of cs)"
proof (induction cs arbitrary: s)
  case Nil
  show ?case by (simp add: then_read_def forced_Nil)
next
  case (Cons c cs)
  show ?case
  proof (cases c)
    case (Add e)
    obtain s' r where A: "add e s = (s', r)" by (cases "add e s")
    show ?thesis
    proof (cases r)
      case (Inl x)
      have "snd (groups s) = Inl x"
        using A Inl by (cases "groups s") (auto simp add: add_def groups_entities split: sum.splits)
      then have "forced s (e # adds_of cs) = Inl x"
        by (cases "groups s") (simp add: forced_def)
      with A Inl Add show ?thesis by (simp add: then_read_def)
    next
      case (Inr u)
      with A Add Cons.IH[of s'] forced_add[of e s s' u "adds_of cs"] show ?thesis by simp
    qed
  next
    case Read
    obtain s' r where G: "groups s = (s', r)" by (cases "groups s")
    show ?thesis
    proof (cases r)
      case (Inl x)
      with G Read show ?thesis by (simp add: then_read_def forced_def)
    next
      case (Inr d)
      with G Read Cons.IH[of s'] forced_read[of s s' d "adds_of cs"] show ?thesis by simp
    qed
  next
    case (SetNodes v)
    with Cons.IH[of "nodes_set v s"] show ?thesis by (simp add: forced_set_nodes)
  qed
qed

lemma adds_of_map_Add: "adds_of (map Add es) = es"
  by (induction es) simp_all

lemma adds_of_read_after_each: "adds_of (read_after_each es) = es"
  by (induction es) (simp_all add: read_after_each_def)

lemma groups_keeps_entities: "es_entities (fst (groups s)) = es_entities s"
proof (cases "u_groups s")
  case (Materialized d)
  then show ?thesis by (simp add: groups_Materialized)
next
  case (Pending e d gs)
  obtain d' r where R: "regroup e d gs = (d', r)" by (cases "regroup e d gs")
  show ?thesis
  proof (cases r)
    case None
    with Pending R show ?thesis by (simp add: groups_Pending_ok)
  next
    case (Some x)
    with Pending R show ?thesis by (simp add: groups_Pending_raise)
  qed
qed

lemma add_entities_field: "es_entities (fst (add e s)) = es_entities s @ [e]"
proof -
  obtain s1 r where G: "groups s = (s1, r)" by (cases "groups s")
  have "es_entities s1 = es_entities s" using groups_keeps_entities[of s] G by simp
  with G show ?thesis by (cases r) (simp_all add: add_def groups_entities)
qed

section \<open>The fold of the default grouping\<close>

lemma apply_groupings_append:
  "apply_groupings (gs1 @ gs2) e d =
     (case apply_groupings gs1 e d of
        (d1, None) \<Rightarrow> apply_groupings gs2 e d1
      | (d1, Some x) \<Rightarrow> (d1, Some x))"
  by (induction gs1 arbitrary: d) (auto split: prod.splits option.splits)

lemma init_loop_fold:
  "fold_groups gs d es = (case init_loop gs es d of (d', None) \<Rightarrow> Inr d' | (d', Some x) \<Rightarrow> Inl x)"
  by (induction es arbitrary: d) (auto simp add: regroup_def split: prod.splits option.splits)

lemma init_result:
  "EnergySystem_init G kw = Inr s \<Longrightarrow>
     u_groupings s = configure G (kwargs_get (kw_groupings kw) [])
     \<and> es_entities s = kwargs_get (kw_entities kw) []
     \<and> (\<exists>d. u_groups s = Materialized d
            \<and> fold_groups (u_groupings s) Map.empty (kwargs_get (kw_entities kw) []) = Inr d)"
  by (auto simp add: EnergySystem_init_def Let_def init_loop_fold split: prod.splits option.splits)

lemma find_app:
  "find P (xs @ ys) = (case find P xs of Some x \<Rightarrow> Some x | None \<Rightarrow> find P ys)"
  by (induction xs) simp_all

lemma regroup_BY_UID: "regroup e d [BY_UID] = (d(uid e \<mapsto> Single e), None)"
  by (simp add: regroup_def BY_UID_def)

lemma latest_Cons:
  "latest (e # es) u = (case latest es u of Some x \<Rightarrow> Some x | None \<Rightarrow> if uid e = u then Some e else None)"
  by (simp add: latest_def find_app split: option.splits)

lemma latest_append:
  "latest (xs @ ys) u = (case latest ys u of Some x \<Rightarrow> Some x | None \<Rightarrow> latest xs u)"
  by (simp add: latest_def find_app split: option.splits)

lemma latest_None: "uid e \<notin> uid ` set ys \<Longrightarrow> latest ys (uid e) = None"
  by (force simp add: latest_def find_None_iff)

lemma fold_groups_BY_UID:
  "fold_groups [BY_UID] d es =
     Inr (\<lambda>u. case latest es u of Some e \<Rightarrow> Some (Single e) | None \<Rightarrow> d u)"
proof (induction es arbitrary: d)
  case Nil
  show ?case by (simp add: latest_def)
next
  case (Cons e es)
  show ?case
    by (auto simp add: regroup_BY_UID Cons.IH latest_Cons fun_eq_iff split: option.splits)
qed

section \<open>Groupings that keep the keys\<close>









section \<open>What an operation does to the dictionary and the entities\<close>






section \<open>Regions: basic facts\<close>

lemma back_reference_at:
  "back_reference r es st i =
     (if i \<in> ident ` set es \<and> r \<notin> set (st i) then st i @ [r] else st i)"
  by (induction es arbitrary: st) auto

lemma code_loop_short_code: "code_loop upper parts acc = acc @ short_code upper parts"
  by (induction parts arbitrary: acc) (simp_all add: short_code_def)

lemma split_once_length: "length (split_once s) = (if CHR '' '' \<in> set s then 2 else 1)"
  by (simp add: split_once_def)

section \<open>The claims on the grouping engine\<close>

text \<open>
  C1.  An energy system is built with the default grouping alone, from any list of
  entities, and any program of additions, reads and assignments to \<^verbatim>\<open>nodes\<close>
  is run on it.  Then the construction and the final read of \<^verbatim>\<open>groups\<close> succeed, and
  the mapping holds under every uid the entity with that uid that was added last (and
  nothing under a uid no entity has).  So \<^verbatim>\<open>groups[e.uid] is e\<close> for every entity
  \<open>e\<close> after which no entity with the same uid was added.
\<close>

theorem default_grouping_by_uid:
  assumes "kwargs_get (kw_groupings kw) [] = []"
  shows "\<exists>s0 d. EnergySystem_init G kw = Inr s0 \<and> then_read (run cs s0) = Inr d
     \<and> (\<forall>u. d u = map_option Single (latest (kwargs_get (kw_entities kw) [] @ adds_of cs) u))
     \<and> (\<forall>xs e ys. kwargs_get (kw_entities kw) [] @ adds_of cs = xs @ e # ys \<and> uid e \<notin> uid ` set ys
           \<longrightarrow> d (uid e) = Some (Single e))"
proof -
  let ?es0 = "kwargs_get (kw_entities kw) []"
  let ?d = "\<lambda>u. map_option Single (latest (?es0 @ adds_of cs) u)"
  have F0: "fold_groups [BY_UID] Map.empty ?es0 = Inr (\<lambda>u. map_option Single (latest ?es0 u))"
    by (simp add: fold_groups_BY_UID fun_eq_iff split: option.splits)
  then obtain s0 where I: "EnergySystem_init G kw = Inr s0"
    using assms by (auto simp add: EnergySystem_init_def Let_def configure_def init_loop_fold split: prod.splits option.splits)
  from init_result[OF I] assms F0 have gs: "u_groupings s0 = [BY_UID]"
    and M: "u_groups s0 = Materialized (\<lambda>u. map_option Single (latest ?es0 u))"
    by (auto simp add: configure_def)
  have R: "then_read (run cs s0) = Inr ?d"
    by (simp add: then_read_run forced_def groups_Materialized[OF M] gs fold_groups_BY_UID
          latest_append fun_eq_iff split: option.splits)
  have L: "\<forall>xs e ys. ?es0 @ adds_of cs = xs @ e # ys \<and> uid e \<notin> uid ` set ys \<longrightarrow> ?d (uid e) = Some (Single e)"
  proof (intro allI impI)
    fix xs e ys
    assume A: "?es0 @ adds_of cs = xs @ e # ys \<and> uid e \<notin> uid ` set ys"
    then have "latest (?es0 @ adds_of cs) (uid e) = Some e"
      using latest_None[of e ys] by (simp add: latest_append latest_Cons)
    then show "?d (uid e) = Some (Single e)" by simp
  qed
  from I R L show ?thesis by blast
qed

text \<open>
  The theorem on a system built from one bus, to which two more are added with a read
  in between; the third bus has the uid of the first and replaces it.
\<close>

theorem default_grouping_by_uid_witness:
  "kwargs_get (kw_groupings (no_kwargs\<lparr>kw_entities := Some [bus_el]\<rparr>)) [] = []
   \<and> (\<exists>s0 d. EnergySystem_init example_wrapper (no_kwargs\<lparr>kw_entities := Some [bus_el]\<rparr>) = Inr s0
         \<and> then_read (run [Add bus_gas, Read, Add bus_el2] s0) = Inr d
         \<and> d ''electricity'' = Some (Single bus_el2)
         \<and> d ''gas'' = Some (Single bus_gas)
         \<and> d ''heat'' = None)"
proof -
  have h: "kwargs_get (kw_groupings (no_kwargs\<lparr>kw_entities := Some [bus_el]\<rparr>)) [] = []"
    by (simp add: no_kwargs_def kwargs_get_def)
  from default_grouping_by_uid [OF h, of example_wrapper "[Add bus_gas, Read, Add bus_el2]"]
  obtain s0 d where
    I: "EnergySystem_init example_wrapper (no_kwargs\<lparr>kw_entities := Some [bus_el]\<rparr>) = Inr s0"
    and R: "then_read (run [Add bus_gas, Read, Add bus_el2] s0) = Inr d"
    and D: "\<forall>u. d u = map_option Single
          (latest (kwargs_get (kw_entities (no_kwargs\<lparr>kw_entities := Some [bus_el]\<rparr>)) []
                   @ adds_of [Add bus_gas, Read, Add bus_el2]) u)"
    by blast
  from D have "d ''electricity'' = Some (Single bus_el2)" "d ''gas'' = Some (Single bus_gas)"
    "d ''heat'' = None"
    by (simp_all add: latest_def kwargs_get_def no_kwargs_def bus_el_def bus_gas_def bus_el2_def)
  with h I R show ?thesis by blast
qed

text \<open>
  C2, as the code has it.  \<^verbatim>\<open>add\<close> reads the property \<^verbatim>\<open>groups\<close> while it builds
  the new callable.  In the state MATERIALIZED it wraps the dictionary as it is, and no
  grouping is called.  In the state PENDING it first runs the pending fold, that of the
  entity added before: when the groupings return, the new callable holds the dictionary
  they produced and the fold of the new entity alone; when one raises, \<^verbatim>\<open>add\<close>
  raises, the entity stays appended and the old fold stays pending.  After an
  \<^verbatim>\<open>add\<close> that returns, exactly one fold is pending.  A read runs the pending fold and
  stores its dictionary, and returns the dictionary unchanged in the state
  MATERIALIZED.
\<close>

theorem add_forces_pending_fold:
  "(\<forall>d. u_groups s = Materialized d \<longrightarrow>
       add e s = (s\<lparr>es_entities := es_entities s @ [e], u_groups := Pending e d (u_groupings s)\<rparr>, Inr ())
       \<and> groups s = (s, Inr d))
   \<and> (\<forall>e0 d0 gs0 d1. u_groups s = Pending e0 d0 gs0 \<and> regroup e0 d0 gs0 = (d1, None) \<longrightarrow>
       add e s = (s\<lparr>es_entities := es_entities s @ [e], u_groups := Pending e d1 (u_groupings s)\<rparr>, Inr ())
       \<and> groups s = (s\<lparr>u_groups := Materialized d1\<rparr>, Inr d1))
   \<and> (\<forall>e0 d0 gs0 d1 x. u_groups s = Pending e0 d0 gs0 \<and> regroup e0 d0 gs0 = (d1, Some x) \<longrightarrow>
       add e s = (s\<lparr>es_entities := es_entities s @ [e], u_groups := Pending e0 d1 gs0\<rparr>, Inl x)
       \<and> groups s = (s\<lparr>u_groups := Pending e0 d1 gs0\<rparr>, Inl x))
   \<and> (snd (add e s) = Inr () \<longrightarrow> pending_entities (u_groups (fst (add e s))) = [e])"
proof (intro conjI allI impI)
  fix d assume M: "u_groups s = Materialized d"
  then show "add e s = (s\<lparr>es_entities := es_entities s @ [e], u_groups := Pending e d (u_groupings s)\<rparr>, Inr ())"
    by (simp add: add_def groups_entities groups_Materialized)
  from M show "groups s = (s, Inr d)" by (rule groups_Materialized)
next
  fix e0 d0 gs0 d1
  assume A: "u_groups s = Pending e0 d0 gs0 \<and> regroup e0 d0 gs0 = (d1, None)"
  then have G: "groups s = (s\<lparr>u_groups := Materialized d1\<rparr>, Inr d1)"
    by (simp add: groups_Pending_ok)
  then show "groups s = (s\<lparr>u_groups := Materialized d1\<rparr>, Inr d1)" .
  from G show "add e s = (s\<lparr>es_entities := es_entities s @ [e], u_groups := Pending e d1 (u_groupings s)\<rparr>, Inr ())"
    by (simp add: add_def groups_entities)
next
  fix e0 d0 gs0 d1 x
  assume A: "u_groups s = Pending e0 d0 gs0 \<and> regroup e0 d0 gs0 = (d1, Some x)"
  then have G: "groups s = (s\<lparr>u_groups := Pending e0 d1 gs0\<rparr>, Inl x)"
    by (simp add: groups_Pending_raise)
  then show "groups s = (s\<lparr>u_groups := Pending e0 d1 gs0\<rparr>, Inl x)" .
  from G show "add e s = (s\<lparr>es_entities := es_entities s @ [e], u_groups := Pending e0 d1 gs0\<rparr>, Inl x)"
    by (simp add: add_def groups_entities)
next
  assume "snd (add e s) = Inr ()"
  then show "pending_entities (u_groups (fst (add e s))) = [e]"
    by (cases "groups s") (auto simp add: add_def groups_entities split: sum.splits)
qed

text \<open>The three transitions of \<^verbatim>\<open>add\<close> on concrete energy systems.\<close>

theorem add_forces_pending_fold_witness:
  "add bus_gas (es_empty [BY_UID])
     = ((es_empty [BY_UID])\<lparr>es_entities := [bus_gas],
                             u_groups := Pending bus_gas Map.empty [BY_UID]\<rparr>, Inr ())
   \<and> add bus_gas ((es_empty [BY_UID])\<lparr>es_entities := [bus_el],
                                      u_groups := Pending bus_el Map.empty [BY_UID]\<rparr>)
     = ((es_empty [BY_UID])\<lparr>es_entities := [bus_el, bus_gas],
                             u_groups := Pending bus_gas [''electricity'' \<mapsto> Single bus_el] [BY_UID]\<rparr>,
        Inr ())
   \<and> add bus_gas ((es_empty [BY_UID, fails_on bus_el])\<lparr>es_entities := [bus_el],
           u_groups := Pending bus_el Map.empty [BY_UID, fails_on bus_el]\<rparr>)
     = ((es_empty [BY_UID, fails_on bus_el])\<lparr>es_entities := [bus_el, bus_gas],
           u_groups := Pending bus_el [''electricity'' \<mapsto> Single bus_el] [BY_UID, fails_on bus_el]\<rparr>,
        Inl (UserError ''boom''))"
  using add_forces_pending_fold [of "es_empty [BY_UID]" bus_gas]
    add_forces_pending_fold [of "(es_empty [BY_UID])\<lparr>es_entities := [bus_el],
                                      u_groups := Pending bus_el Map.empty [BY_UID]\<rparr>" bus_gas]
    add_forces_pending_fold [of "(es_empty [BY_UID, fails_on bus_el])\<lparr>es_entities := [bus_el],
           u_groups := Pending bus_el Map.empty [BY_UID, fails_on bus_el]\<rparr>" bus_gas]
  by (simp add: es_empty_def regroup_def BY_UID_def fails_on_def bus_el_def bus_gas_def)

text \<open>
  The claim as stated fails: after two additions without a read the stored callable
  holds the fold of the second bus only, not the chain of both, and its dictionary
  already has the first bus in it, which the default grouping wrote during the second
  \<^verbatim>\<open>add\<close>.
\<close>

theorem add_chain_counterexample:
  "EnergySystem_init example_wrapper no_kwargs = Inr (es_empty [BY_UID])
   \<and> u_groups (fst (run [Add bus_el] (es_empty [BY_UID]))) = Pending bus_el Map.empty [BY_UID]
   \<and> u_groups (fst (run [Add bus_el, Add bus_gas] (es_empty [BY_UID])))
       = Pending bus_gas [''electricity'' \<mapsto> Single bus_el] [BY_UID]
   \<and> pending_entities (u_groups (fst (run [Add bus_el, Add bus_gas] (es_empty [BY_UID]))))
       \<noteq> [bus_el, bus_gas]
   \<and> stored_dict (u_groups (fst (run [Add bus_el, Add bus_gas] (es_empty [BY_UID]))))
       \<noteq> stored_dict (u_groups (fst (run [Add bus_el] (es_empty [BY_UID]))))"
proof -
  have I: "EnergySystem_init example_wrapper no_kwargs = Inr (es_empty [BY_UID])"
    by (simp add: EnergySystem_init_def no_kwargs_def kwargs_get_def configure_def es_empty_def)
  have A: "u_groups (fst (run [Add bus_el] (es_empty [BY_UID]))) = Pending bus_el Map.empty [BY_UID]"
    by (simp add: es_empty_def add_def groups_entities groups_Materialized)
  have B: "u_groups (fst (run [Add bus_el, Add bus_gas] (es_empty [BY_UID])))
       = Pending bus_gas [''electricity'' \<mapsto> Single bus_el] [BY_UID]"
    by (simp add: es_empty_def add_def groups_entities groups_Materialized groups_Pending_ok
        regroup_BY_UID bus_el_def)
  have C: "[''electricity'' \<mapsto> Single bus_el] \<noteq> Map.empty" by simp
  from I A B C show ?thesis by (simp add: bus_el_def bus_gas_def)
qed

text \<open>
  C3, as the code has it.  \<^verbatim>\<open>add(e)\<close> calls no grouping on \<open>e\<close> itself: on a
  materialized mapping it never raises, and in general it raises exactly what a read of
  \<^verbatim>\<open>groups\<close> at that moment raises, which is the failure of the fold pending from
  the addition before.  When a grouping raises on \<open>e\<close>, the exception is raised by the
  next read of \<^verbatim>\<open>groups\<close>, and that read may be the one the next \<^verbatim>\<open>add\<close> makes.
  It is not caught.
\<close>

theorem grouping_failure_surfaces_at_read:
  "(\<forall>d. u_groups s = Materialized d \<longrightarrow> snd (add e s) = Inr ())
   \<and> (\<forall>x. snd (add e s) = Inl x \<longleftrightarrow> snd (groups s) = Inl x)
   \<and> (\<forall>s' d x e'. add e s = (s', Inr ()) \<and> snd (groups s) = Inr d
          \<and> snd (regroup e d (u_groupings s)) = Some x \<longrightarrow>
        snd (groups s') = Inl x \<and> snd (add e' s') = Inl x)"
proof (intro conjI allI impI)
  fix d assume "u_groups s = Materialized d"
  then show "snd (add e s) = Inr ()"
    by (simp add: add_def groups_entities groups_Materialized)
next
  fix x show "snd (add e s) = Inl x \<longleftrightarrow> snd (groups s) = Inl x"
    by (cases "groups s") (auto simp add: add_def groups_entities split: sum.splits)
next
  fix s' d x e'
  assume A: "add e s = (s', Inr ()) \<and> snd (groups s) = Inr d \<and> snd (regroup e d (u_groupings s)) = Some x"
  obtain s1 where G: "groups s = (s1, Inr d)" using A by (cases "groups s") auto
  have gg: "u_groupings s1 = u_groupings s" using groups_groupings[of s] G by simp
  from A G gg have s': "u_groups s' = Pending e d (u_groupings s)"
    by (auto simp add: add_def groups_entities)
  obtain d' where R: "regroup e d (u_groupings s) = (d', Some x)"
    using A by (cases "regroup e d (u_groupings s)") auto
  show "snd (groups s') = Inl x" by (simp add: groups_Pending_raise[OF s' R])
  then show "snd (add e' s') = Inl x" by (rule add_raises)
qed

text \<open>
  A grouping that raises on the electricity bus: adding that bus returns, the read after
  it raises, and so does the addition after it.
\<close>

theorem grouping_failure_surfaces_at_read_witness:
  "snd (add bus_el (es_empty [BY_UID, fails_on bus_el])) = Inr ()
   \<and> snd (groups (fst (add bus_el (es_empty [BY_UID, fails_on bus_el])))) = Inl (UserError ''boom'')
   \<and> snd (add bus_gas (fst (add bus_el (es_empty [BY_UID, fails_on bus_el])))) = Inl (UserError ''boom'')"
proof -
  let ?s = "es_empty [BY_UID, fails_on bus_el]"
  have M: "u_groups ?s = Materialized Map.empty" by (simp add: es_empty_def)
  have G: "snd (groups ?s) = Inr Map.empty" by (simp add: groups_Materialized[OF M])
  have A: "add bus_el ?s = (fst (add bus_el ?s), Inr ())"
    by (simp add: add_def groups_entities groups_Materialized[OF M])
  have R: "snd (regroup bus_el Map.empty (u_groupings ?s)) = Some (UserError ''boom'')"
    by (simp add: es_empty_def regroup_def BY_UID_def fails_on_def)
  note T = grouping_failure_surfaces_at_read [of ?s bus_el]
  from T M have 1: "snd (add bus_el ?s) = Inr ()" by blast
  from A G R
    T [THEN conjunct2, THEN conjunct2, rule_format,
       of "fst (add bus_el ?s)" Map.empty "UserError ''boom''" bus_gas]
  have 2: "snd (groups (fst (add bus_el ?s))) = Inl (UserError ''boom'')
     \<and> snd (add bus_gas (fst (add bus_el ?s))) = Inl (UserError ''boom'')"
    by blast
  from 1 2 show ?thesis by blast
qed

text \<open>
  The claim as stated fails: the fold is forced inside \<^verbatim>\<open>add\<close>.  The grouping raises
  on the electricity bus only, and the exception leaves the call that adds the gas bus.
\<close>

theorem eager_forcing_counterexample:
  "EnergySystem_init example_wrapper (no_kwargs\<lparr>kw_groupings := Some [Instance (fails_on bus_el)]\<rparr>)
     = Inr (es_empty [BY_UID, fails_on bus_el])
   \<and> snd (add bus_el (es_empty [BY_UID, fails_on bus_el])) = Inr ()
   \<and> snd (add bus_gas (fst (add bus_el (es_empty [BY_UID, fails_on bus_el])))) = Inl (UserError ''boom'')"
  by (simp add: EnergySystem_init_def no_kwargs_def kwargs_get_def configure_def
        es_empty_def add_def groups_entities groups_Materialized groups_Pending_raise
        regroup_def BY_UID_def fails_on_def bus_el_def bus_gas_def)

text \<open>
  C4.  Reads between the additions do not change what the final read gives.  For every
  list of entities, the program that reads \<^verbatim>\<open>groups\<close> after each \<^verbatim>\<open>add\<close> and the
  program that only adds end with the same result of the final read: the same mapping,
  or the same exception where a grouping raises.  The same holds for every program of
  additions, reads and assignments to \<^verbatim>\<open>nodes\<close>: only its additions count.
\<close>

theorem forcing_order_irrelevant:
  "then_read (run (read_after_each es) s) = then_read (run (map Add es) s)
   \<and> then_read (run cs s) = then_read (run (map Add (adds_of cs)) s)"
  by (simp add: then_read_run adds_of_map_Add adds_of_read_after_each)

text \<open>
  Reading after each addition and adding only, with a grouping that raises on the second
  bus and with the default grouping alone.
\<close>

theorem forcing_order_irrelevant_witness:
  "then_read (run (read_after_each [bus_el, bus_gas]) (es_empty [BY_UID, fails_on bus_gas]))
     = then_read (run (map Add [bus_el, bus_gas]) (es_empty [BY_UID, fails_on bus_gas]))
   \<and> then_read (run (map Add [bus_el, bus_gas]) (es_empty [BY_UID, fails_on bus_gas]))
     = Inl (UserError ''boom'')
   \<and> then_read (run [Add bus_el, Read, Add bus_el2, Read] (es_empty [BY_UID]))
     = then_read (run [Add bus_el, Add bus_el2] (es_empty [BY_UID]))"
proof -
  have "then_read (run (map Add [bus_el, bus_gas]) (es_empty [BY_UID, fails_on bus_gas]))
     = Inl (UserError ''boom'')"
    by (simp add: then_read_def es_empty_def add_def groups_entities groups_Materialized
          groups_Pending_ok groups_Pending_raise regroup_def BY_UID_def fails_on_def
          bus_el_def bus_gas_def)
  with forcing_order_irrelevant [of "[bus_el, bus_gas]" "es_empty [BY_UID, fails_on bus_gas]"
         "[Add bus_el, Read, Add bus_el2, Read]"]
       forcing_order_irrelevant [of "[]" "es_empty [BY_UID]" "[Add bus_el, Read, Add bus_el2, Read]"]
  show ?thesis by simp
qed

text \<open>
  C6.  In a constructed energy system the list of groupings has the default grouping
  first and then one grouping for each element of the argument, in the order given: the
  element itself when it is a grouping, the wrapper applied to it otherwise.  The
  callable that \<^verbatim>\<open>add\<close> stores holds this list, and \<^verbatim>\<open>_regroup\<close> calls the
  groupings of a list from left to right, each on the dictionary the ones before it
  left, up to the first that raises.
\<close>

theorem groupings_configured:
  "(\<forall>s. EnergySystem_init G kw = Inr s \<longrightarrow>
      length (u_groupings s) = Suc (length (kwargs_get (kw_groupings kw) []))
      \<and> u_groupings s ! 0 = BY_UID
      \<and> (\<forall>i < length (kwargs_get (kw_groupings kw) []).
            u_groupings s ! Suc i =
              (case kwargs_get (kw_groupings kw) [] ! i of Instance g \<Rightarrow> g | Raw k \<Rightarrow> G k))
      \<and> (\<forall>e s'. add e s = (s', Inr ()) \<longrightarrow> (\<exists>d. u_groups s' = Pending e d (u_groupings s))))
   \<and> (\<forall>gs1 g gs2 e d. regroup e d (gs1 @ g # gs2) =
         (case regroup e d gs1 of
            (d1, None) \<Rightarrow> (case g e d1 of (d2, None) \<Rightarrow> regroup e d2 gs2 | (d2, Some x) \<Rightarrow> (d2, Some x))
          | (d1, Some x) \<Rightarrow> (d1, Some x)))"
proof (intro conjI allI impI)
  fix s assume I: "EnergySystem_init G kw = Inr s"
  note R = init_result[OF I]
  show "length (u_groupings s) = Suc (length (kwargs_get (kw_groupings kw) []))"
    using R by (simp add: configure_def)
  show "u_groupings s ! 0 = BY_UID" using R by (simp add: configure_def)
  show "\<And>i. i < length (kwargs_get (kw_groupings kw) []) \<Longrightarrow> u_groupings s ! Suc i =
              (case kwargs_get (kw_groupings kw) [] ! i of Instance g \<Rightarrow> g | Raw k \<Rightarrow> G k)"
    using R by (simp add: configure_def)
  show "\<And>e s'. add e s = (s', Inr ()) \<Longrightarrow> \<exists>d. u_groups s' = Pending e d (u_groupings s)"
  proof -
    fix e s' assume A: "add e s = (s', Inr ())"
    from R obtain d where M: "u_groups s = Materialized d" by blast
    from A show "\<exists>d. u_groups s' = Pending e d (u_groupings s)"
      by (auto simp add: add_def groups_entities groups_Materialized[OF M])
  qed
next
  fix gs1 g gs2 e d
  show "regroup e d (gs1 @ g # gs2) =
         (case regroup e d gs1 of
            (d1, None) \<Rightarrow> (case g e d1 of (d2, None) \<Rightarrow> regroup e d2 gs2 | (d2, Some x) \<Rightarrow> (d2, Some x))
          | (d1, Some x) \<Rightarrow> (d1, Some x))"
    by (simp add: regroup_def apply_groupings_append split: prod.splits option.splits)
qed

text \<open>A key function and a grouping as arguments.\<close>

theorem groupings_configured_witness:
  "EnergySystem_init example_wrapper
       (no_kwargs\<lparr>kw_groupings := Some [Raw uid, Instance (fails_on bus_gas)]\<rparr>)
     = Inr (es_empty [BY_UID, example_wrapper uid, fails_on bus_gas])
   \<and> length (u_groupings (es_empty [BY_UID, example_wrapper uid, fails_on bus_gas])) = 3
   \<and> u_groupings (es_empty [BY_UID, example_wrapper uid, fails_on bus_gas]) ! 0 = BY_UID
   \<and> u_groupings (es_empty [BY_UID, example_wrapper uid, fails_on bus_gas]) ! Suc 0 = example_wrapper uid
   \<and> u_groupings (es_empty [BY_UID, example_wrapper uid, fails_on bus_gas]) ! Suc (Suc 0) = fails_on bus_gas
   \<and> regroup bus_gas Map.empty [BY_UID, example_wrapper uid, fails_on bus_gas]
       = ([''gas'' \<mapsto> Members {bus_gas}], Some (UserError ''boom''))"
proof -
  let ?kw = "no_kwargs\<lparr>kw_groupings := Some [Raw uid, Instance (fails_on bus_gas)]\<rparr>"
  let ?s = "es_empty [BY_UID, example_wrapper uid, fails_on bus_gas]"
  have I: "EnergySystem_init example_wrapper ?kw = Inr ?s"
    by (simp add: EnergySystem_init_def no_kwargs_def kwargs_get_def configure_def es_empty_def)
  have U: "kwargs_get (kw_groupings ?kw) [] = [Raw uid, Instance (fails_on bus_gas)]"
    by (simp add: no_kwargs_def kwargs_get_def)
  note T = groupings_configured [of example_wrapper ?kw]
  from T I have L: "length (u_groupings ?s) = Suc (length (kwargs_get (kw_groupings ?kw) []))"
    and Z: "u_groupings ?s ! 0 = BY_UID"
    and N: "\<forall>i < length (kwargs_get (kw_groupings ?kw) []).
            u_groupings ?s ! Suc i =
              (case kwargs_get (kw_groupings ?kw) [] ! i of Instance g \<Rightarrow> g | Raw k \<Rightarrow> example_wrapper k)"
    by blast+
  from N [rule_format, of 0] U have N0: "u_groupings ?s ! Suc 0 = example_wrapper uid"
    by simp
  from N [rule_format, of "Suc 0"] U have N1: "u_groupings ?s ! Suc (Suc 0) = fails_on bus_gas"
    by simp
  from T have "regroup bus_gas Map.empty ([BY_UID] @ example_wrapper uid # [fails_on bus_gas]) =
         (case regroup bus_gas Map.empty [BY_UID] of
            (d1, None) \<Rightarrow> (case example_wrapper uid bus_gas d1 of
                 (d2, None) \<Rightarrow> regroup bus_gas d2 [fails_on bus_gas] | (d2, Some x) \<Rightarrow> (d2, Some x))
          | (d1, Some x) \<Rightarrow> (d1, Some x))"
    by blast
  then have O: "regroup bus_gas Map.empty [BY_UID, example_wrapper uid, fails_on bus_gas]
       = ([''gas'' \<mapsto> Members {bus_gas}], Some (UserError ''boom''))"
    by (simp add: regroup_def BY_UID_def example_wrapper_def fails_on_def bus_gas_def)
  from I L U Z N0 N1 O show ?thesis by simp
qed

text \<open>
  C7.  \<^verbatim>\<open>nodes\<close> reads the attribute \<^verbatim>\<open>entities\<close>, also after an addition, and
  assigning to it replaces that attribute.  The assignment changes nothing else:
  \<^verbatim>\<open>_groups\<close> and the groupings stay, so a read of \<^verbatim>\<open>groups\<close> gives what it
  gave without the assignment.
\<close>

theorem nodes_alias:
  "nodes s = es_entities s
   \<and> nodes (nodes_set v s) = v
   \<and> es_entities (nodes_set v s) = v
   \<and> nodes (fst (add e s)) = es_entities s @ [e]
   \<and> u_groups (nodes_set v s) = u_groups s
   \<and> u_groupings (nodes_set v s) = u_groupings s
   \<and> snd (groups (nodes_set v s)) = snd (groups s)
   \<and> u_groups (fst (groups (nodes_set v s))) = u_groups (fst (groups s))
   \<and> regions (nodes_set v s) = regions s
   \<and> simulation (nodes_set v s) = simulation s
   \<and> results (nodes_set v s) = results s
   \<and> time_idx (nodes_set v s) = time_idx s"
  by (simp add: nodes_def nodes_set_def add_entities_field groups_entities)

text \<open>Assigning a list with the gas bus after the electricity bus was added.\<close>

theorem nodes_alias_witness:
  "nodes (nodes_set [bus_gas] (fst (add bus_el (es_empty [BY_UID])))) = [bus_gas]
   \<and> nodes (fst (add bus_el (es_empty [BY_UID]))) = [bus_el]
   \<and> snd (groups (nodes_set [bus_gas] (fst (add bus_el (es_empty [BY_UID])))))
       = Inr [''electricity'' \<mapsto> Single bus_el]"
proof -
  have G: "snd (groups (fst (add bus_el (es_empty [BY_UID])))) = Inr [''electricity'' \<mapsto> Single bus_el]"
    by (simp add: es_empty_def add_def groups_entities groups_Materialized groups_Pending_ok
          regroup_BY_UID bus_el_def)
  have E: "es_entities (es_empty [BY_UID]) = []" by (simp add: es_empty_def)
  note A = nodes_alias [of "fst (add bus_el (es_empty [BY_UID]))" "[bus_gas]" bus_gas]
  note B = nodes_alias [of "es_empty [BY_UID]" "[]" bus_el]
  from A have 1: "nodes (nodes_set [bus_gas] (fst (add bus_el (es_empty [BY_UID])))) = [bus_gas]"
    by blast
  from B E have 2: "nodes (fst (add bus_el (es_empty [BY_UID]))) = [bus_el]" by simp
  from A have "snd (groups (nodes_set [bus_gas] (fst (add bus_el (es_empty [BY_UID])))))
       = snd (groups (fst (add bus_el (es_empty [BY_UID]))))" by blast
  with G have 3: "snd (groups (nodes_set [bus_gas] (fst (add bus_el (es_empty [BY_UID])))))
       = Inr [''electricity'' \<mapsto> Single bus_el]" by simp
  from 1 2 3 show ?thesis by blast
qed




section \<open>The claim on Simulation\<close>

text \<open>
  C5, as the code has it.  The constructor of \<^verbatim>\<open>Simulation\<close> raises exactly when
  \<^verbatim>\<open>timesteps\<close> is missing or \<^verbatim>\<open>None\<close>, and then it raises
  \<^verbatim>\<open>ValueError('No timesteps defined!')\<close>.  With any sequence of timesteps, the empty
  one included, it returns the object that holds the sequence and every other argument
  as passed, with the solver \<^verbatim>\<open>'glpk'\<close>, the flags \<^verbatim>\<open>False\<close> and the dictionaries
  empty where none was passed.
\<close>

theorem simulation_init_cases:
  "(isl (Simulation_init kw) \<longleftrightarrow> kw_timesteps kw = None \<or> kw_timesteps kw = Some None)
   \<and> (isl (Simulation_init kw) \<longrightarrow> Simulation_init kw = Inl (ValueError ''No timesteps defined!''))
   \<and> (\<forall>ts. kw_timesteps kw = Some (Some ts) \<longrightarrow>
         Simulation_init kw =
           Inr \<lparr>solver = (case kw_solver kw of None \<Rightarrow> ''glpk'' | Some v \<Rightarrow> v),
                debug = (case kw_debug kw of None \<Rightarrow> False | Some v \<Rightarrow> v),
                verbose = (case kw_verbose kw of None \<Rightarrow> False | Some v \<Rightarrow> v),
                objective_options = (case kw_objective_options kw of None \<Rightarrow> Map.empty | Some v \<Rightarrow> v),
                duals = (case kw_duals kw of None \<Rightarrow> False | Some v \<Rightarrow> v),
                timesteps = Some ts,
                relaxed = (case kw_relaxed kw of None \<Rightarrow> False | Some v \<Rightarrow> v),
                fast_build = (case kw_fast_build kw of None \<Rightarrow> False | Some v \<Rightarrow> v),
                solve_kwargs = (case kw_solve_kwargs kw of None \<Rightarrow> Map.empty | Some v \<Rightarrow> v)\<rparr>)"
  by (cases "kw_timesteps kw")
     (auto simp add: Simulation_init_def kwargs_get_def Let_def split: option.splits)

text \<open>
  No arguments, \<^verbatim>\<open>timesteps=None\<close>, and three timesteps with a solver and a flag.
\<close>

theorem simulation_init_cases_witness:
  "isl (Simulation_init sim_no_kwargs)
   \<and> Simulation_init sim_no_kwargs = Inl (ValueError ''No timesteps defined!'')
   \<and> Simulation_init (sim_no_kwargs\<lparr>kw_timesteps := Some None\<rparr>)
       = Inl (ValueError ''No timesteps defined!'')
   \<and> Simulation_init
       (sim_no_kwargs\<lparr>kw_solver := Some ''gurobi'', kw_verbose := Some True,
                       kw_timesteps := Some (Some [0, 1, 2])\<rparr>)
     = Inr \<lparr>solver = ''gurobi'', debug = False, verbose = True, objective_options = Map.empty,
            duals = False, timesteps = Some [0, 1, 2], relaxed = False, fast_build = False,
            solve_kwargs = Map.empty\<rparr>"
proof -
  note A = simulation_init_cases [of sim_no_kwargs]
  note B = simulation_init_cases [of "sim_no_kwargs\<lparr>kw_timesteps := Some None\<rparr>"]
  note C = simulation_init_cases [of "sim_no_kwargs\<lparr>kw_solver := Some ''gurobi'',
             kw_verbose := Some True, kw_timesteps := Some (Some [0, 1, 2])\<rparr>"]
  have a: "kw_timesteps sim_no_kwargs = None" by (simp add: sim_no_kwargs_def)
  from A a have 1: "isl (Simulation_init sim_no_kwargs)" by blast
  with A have 2: "Simulation_init sim_no_kwargs = Inl (ValueError ''No timesteps defined!'')"
    by blast
  have "kw_timesteps (sim_no_kwargs\<lparr>kw_timesteps := Some None\<rparr>) = Some None" by simp
  with B have "isl (Simulation_init (sim_no_kwargs\<lparr>kw_timesteps := Some None\<rparr>))" by blast
  with B have 3: "Simulation_init (sim_no_kwargs\<lparr>kw_timesteps := Some None\<rparr>)
       = Inl (ValueError ''No timesteps defined!'')" by blast
  from C [THEN conjunct2, THEN conjunct2, rule_format, of "[0, 1, 2]"]
  have 4: "Simulation_init
       (sim_no_kwargs\<lparr>kw_solver := Some ''gurobi'', kw_verbose := Some True,
                       kw_timesteps := Some (Some [0, 1, 2])\<rparr>)
     = Inr \<lparr>solver = ''gurobi'', debug = False, verbose = True, objective_options = Map.empty,
            duals = False, timesteps = Some [0, 1, 2], relaxed = False, fast_build = False,
            solve_kwargs = Map.empty\<rparr>"
    by (simp add: sim_no_kwargs_def)
  from 1 2 3 4 show ?thesis by blast
qed

text \<open>
  The claim as stated fails: with the empty sequence of timesteps the constructor
  returns.
\<close>

theorem empty_timesteps_counterexample:
  "Simulation_init (sim_no_kwargs\<lparr>kw_timesteps := Some (Some [])\<rparr>)
   = Inr \<lparr>solver = ''glpk'', debug = False, verbose = False, objective_options = Map.empty,
          duals = False, timesteps = Some [], relaxed = False, fast_build = False,
          solve_kwargs = Map.empty\<rparr>"
  by (simp add: Simulation_init_def kwargs_get_def sim_no_kwargs_def)

section \<open>The claims on Region\<close>

text \<open>
  C9.  \<^verbatim>\<open>add_entities\<close> appends the entities to those of the region, and the region
  is appended to the list of regions of each of them that does not have it yet, once.
  Afterwards every one of the entities has the region; the list of an entity that had it
  before is unchanged, and so are the lists of all other entities.
\<close>

theorem add_entities_back_references:
  "add_entities es (r, st) =
     (r\<lparr>rg_entities := rg_entities r @ es\<rparr>,
      \<lambda>i. if i \<in> ident ` set es \<and> rg_ident r \<notin> set (st i) then st i @ [rg_ident r] else st i)
   \<and> (\<forall>e \<in> set es. rg_ident r \<in> set (snd (add_entities es (r, st)) (ident e)))
   \<and> (\<forall>e \<in> set es. rg_ident r \<in> set (st (ident e)) \<longrightarrow>
         snd (add_entities es (r, st)) (ident e) = st (ident e))"
  by (auto simp add: add_entities_def back_reference_at)

text \<open>
  Region 7 receives the electricity bus twice and the gas bus, which has the region
  already.
\<close>

theorem add_entities_back_references_witness:
  "snd (add_entities [bus_el, bus_gas, bus_el] (region_north, (\<lambda>i. [])(2 := [7, 9]))) 1 = [7]
   \<and> snd (add_entities [bus_el, bus_gas, bus_el] (region_north, (\<lambda>i. [])(2 := [7, 9]))) 2 = [7, 9]
   \<and> snd (add_entities [bus_el, bus_gas, bus_el] (region_north, (\<lambda>i. [])(2 := [7, 9]))) 3 = []
   \<and> rg_entities (fst (add_entities [bus_el, bus_gas, bus_el] (region_north, (\<lambda>i. [])(2 := [7, 9]))))
       = [bus_el2, bus_el, bus_gas, bus_el]"
  using add_entities_back_references [of "[bus_el, bus_gas, bus_el]" region_north
     "(\<lambda>i. [])(2 := [7, 9])"]
  by (simp add: region_north_def bus_el_def bus_gas_def)

text \<open>
  C10.  A code passed to the constructor is what \<^verbatim>\<open>code\<close> returns.  Whenever a code
  is stored, the read returns it and changes nothing, whatever the name is, \<^verbatim>\<open>None\<close>
  included.  With no code stored and a name, the read stores and returns the short code
  of the name, which has at most two parts.  After a read that returned, every further
  read returns the same code, also when the name has been changed.
\<close>

theorem region_code_cached:
  "(\<forall>c. kw_code kw = Some c \<longrightarrow> snd (code upper (fst (Region_init i kw st))) = Inr c)
   \<and> (\<forall>c n. u_code r = Some c \<longrightarrow> code upper (r\<lparr>name := n\<rparr>) = (r\<lparr>name := n\<rparr>, Inr c))
   \<and> (\<forall>n. u_code r = None \<and> name r = Some n \<longrightarrow>
         code upper r =
           (r\<lparr>u_code := Some (short_code upper (split_once (replace_underscores n)))\<rparr>,
            Inr (short_code upper (split_once (replace_underscores n))))
         \<and> length (split_once (replace_underscores n)) \<le> 2)
   \<and> (\<forall>r' c n'. code upper r = (r', Inr c) \<longrightarrow>
         code upper (r'\<lparr>name := n'\<rparr>) = (r'\<lparr>name := n'\<rparr>, Inr c))"
  by (auto simp add: code_def Let_def code_loop_short_code split_once_length
           Region_init_def add_entities_def split: option.splits)

text \<open>
  The region named north, renamed before and after its first read, and a region
  constructed with a code and without a name.
\<close>

theorem region_code_cached_witness:
  "code ascii_upper region_north = (region_north\<lparr>u_code := Some ''Nor''\<rparr>, Inr ''Nor'')
   \<and> code ascii_upper (region_north\<lparr>u_code := Some ''Nor'', name := Some ''south_west coast''\<rparr>)
       = (region_north\<lparr>u_code := Some ''Nor'', name := Some ''south_west coast''\<rparr>, Inr ''Nor'')
   \<and> code ascii_upper (region_north\<lparr>name := Some ''south_west coast''\<rparr>)
       = (region_north\<lparr>name := Some ''south_west coast'', u_code := Some ''SouWes''\<rparr>, Inr ''SouWes'')
   \<and> snd (code ascii_upper
        (fst (Region_init 8 \<lparr>kw_rg_entities = None, kw_name = None, kw_geom = None,
                             kw_code = Some ''XY''\<rparr> (\<lambda>i. [])))) = Inr ''XY''"
proof -
  have S1: "short_code ascii_upper (split_once (replace_underscores ''north'')) = ''Nor''"
    by (simp add: short_code_def split_once_def replace_underscores_def ascii_upper_def)
  have S2: "short_code ascii_upper (split_once (replace_underscores ''south_west coast'')) = ''SouWes''"
    by (simp add: short_code_def split_once_def replace_underscores_def ascii_upper_def)
  note T1 = region_code_cached [of "\<lparr>kw_rg_entities = None, kw_name = None, kw_geom = None,
                             kw_code = Some ''XY''\<rparr>" ascii_upper 8 "\<lambda>i. []" region_north]
  note T2 = region_code_cached [of "\<lparr>kw_rg_entities = None, kw_name = None, kw_geom = None,
                             kw_code = Some ''XY''\<rparr>" ascii_upper 8 "\<lambda>i. []"
                             "region_north\<lparr>name := Some ''south_west coast''\<rparr>"]
  from T1 S1 have A: "code ascii_upper region_north = (region_north\<lparr>u_code := Some ''Nor''\<rparr>, Inr ''Nor'')"
    by (simp add: region_north_def)
  from T1 [THEN conjunct2, THEN conjunct2, THEN conjunct2, rule_format,
           of "region_north\<lparr>u_code := Some ''Nor''\<rparr>" "''Nor''" "Some ''south_west coast''"] A
  have B: "code ascii_upper (region_north\<lparr>u_code := Some ''Nor'', name := Some ''south_west coast''\<rparr>)
       = (region_north\<lparr>u_code := Some ''Nor'', name := Some ''south_west coast''\<rparr>, Inr ''Nor'')"
    by (simp add: region_north_def)
  from T2 S2 have C: "code ascii_upper (region_north\<lparr>name := Some ''south_west coast''\<rparr>)
       = (region_north\<lparr>name := Some ''south_west coast'', u_code := Some ''SouWes''\<rparr>, Inr ''SouWes'')"
    by (simp add: region_north_def)
  from T1 have D: "snd (code ascii_upper
        (fst (Region_init 8 \<lparr>kw_rg_entities = None, kw_name = None, kw_geom = None,
                             kw_code = Some ''XY''\<rparr> (\<lambda>i. [])))) = Inr ''XY''"
    by simp
  from A B C D show ?thesis by simp
qed

end
